theory Spec2Isabelle
  imports Main "HOL-Library.Char_ord" "HOL-Library.List_Lexorder" "HOL-Library.Multiset"
begin

section \<open>JavaScript strings and values\<close>

text \<open>
  The PO compiler of gettext-parser (\<^verbatim>\<open>lib/pocompiler.js\<close>) is embedded function by
  function. A JavaScript string is a list of code units; the model covers the code units
  below 256, so a string is a \<^typ>\<open>string\<close>. The relational operator \<^verbatim>\<open>>\<close> on two
  strings is the lexicographic order on code units, which is the order of
  \<^typ>\<open>char list\<close> here.
\<close>

abbreviation TAB :: char where "TAB \<equiv> CHR 0x09"
abbreviation LF :: char where "LF \<equiv> CHR 0x0A"
abbreviation CR :: char where "CR \<equiv> CHR 0x0D"
abbreviation DQ :: char where "DQ \<equiv> CHR 0x22"
abbreviation BSL :: char where "BSL \<equiv> CHR 0x5C"

text \<open>The only exception the compiler can raise on the inputs modelled here.\<close>

datatype error = TypeError

definition bind :: "error + 'a \<Rightarrow> ('a \<Rightarrow> error + 'b) \<Rightarrow> error + 'b" where
  "bind m f = (case m of Inl e \<Rightarrow> Inl e | Inr x \<Rightarrow> f x)"

fun mapM :: "('a \<Rightarrow> error + 'b) \<Rightarrow> 'a list \<Rightarrow> error + 'b list" where
  "mapM f [] = Inr []"
| "mapM f (x # xs) = bind (f x) (\<lambda>y. bind (mapM f xs) (\<lambda>ys. Inr (y # ys)))"

text \<open>
  A value found where the compiler expects an object: an object (\<open>Obj\<close>), \<^verbatim>\<open>null\<close>, or a
  primitive. \<^verbatim>\<open>typeof\<close> answers \<^verbatim>\<open>'object'\<close> for the first two.
\<close>

datatype prim = PUndefined | PBool bool | PNum int | PStr string

datatype 'a jsval = Obj 'a | Null | Prim prim

fun truthy_prim :: "prim \<Rightarrow> bool" where
  "truthy_prim PUndefined = False"
| "truthy_prim (PBool b) = b"
| "truthy_prim (PNum n) = (n \<noteq> 0)"
| "truthy_prim (PStr s) = (s \<noteq> [])"

fun truthy :: "'a jsval \<Rightarrow> bool" where
  "truthy (Obj _) = True"
| "truthy Null = False"
| "truthy (Prim p) = truthy_prim p"

fun typeof_object :: "'a jsval \<Rightarrow> bool" where
  "typeof_object (Obj _) = True"
| "typeof_object Null = True"
| "typeof_object (Prim _) = False"

text \<open>
  An object used as a mapping is the list of its own properties in the order
  \<^verbatim>\<open>Object.keys\<close> enumerates them; \<open>obj[k]\<close> is \<^term>\<open>map_of obj k\<close>, with \<open>None\<close> for
  \<^verbatim>\<open>undefined\<close>. An assignment \<open>obj[k] = v\<close> keeps the place of an existing key and
  appends a new one.
\<close>

definition keys :: "(string \<times> 'a) list \<Rightarrow> string list" where
  "keys obj = map fst obj"

fun set_prop :: "(string \<times> 'a) list \<Rightarrow> string \<Rightarrow> 'a \<Rightarrow> (string \<times> 'a) list" where
  "set_prop [] k v = [(k, v)]"
| "set_prop ((k', v') # rest) k v =
     (if k' = k then (k, v) # rest else (k', v') # set_prop rest k v)"

text \<open>A string or \<^verbatim>\<open>undefined\<close>: truthiness, \<open>x || ''\<close>, and string concatenation.\<close>

fun truthy_str :: "string option \<Rightarrow> bool" where
  "truthy_str None = False"
| "truthy_str (Some s) = (s \<noteq> [])"

fun or_empty :: "string option \<Rightarrow> string" where
  "or_empty None = []"
| "or_empty (Some s) = s"

fun to_string :: "string option \<Rightarrow> string" where
  "to_string None = ''undefined''"
| "to_string (Some s) = s"

fun js_gt :: "string option \<Rightarrow> string option \<Rightarrow> bool" where
  "js_gt (Some a) (Some b) = (b < a)"
| "js_gt _ _ = False"

subsection \<open>String methods\<close>

text \<open>\<^verbatim>\<open>String.prototype.split\<close> with a one-character separator.\<close>

fun split_on :: "char \<Rightarrow> string \<Rightarrow> string list" where
  "split_on sep [] = [[]]"
| "split_on sep (c # cs) =
     (if c = sep then [] # split_on sep cs
      else (case split_on sep cs of [] \<Rightarrow> [[c]] | p # ps \<Rightarrow> (c # p) # ps))"

text \<open>\<^verbatim>\<open>split(/\r?\n|\r/)\<close>: a line ends at CR LF, at LF or at CR.\<close>

fun split_lines :: "string \<Rightarrow> string list" where
  "split_lines [] = [[]]"
| "split_lines (c # cs) =
     (if c = CR \<and> cs \<noteq> [] \<and> hd cs = LF then [] # split_lines (tl cs)
      else if c = LF \<or> c = CR then [] # split_lines cs
      else (case split_lines cs of [] \<Rightarrow> [[c]] | p # ps \<Rightarrow> (c # p) # ps))"

text \<open>\<^verbatim>\<open>Array.prototype.join\<close>.\<close>

fun join :: "string \<Rightarrow> string list \<Rightarrow> string" where
  "join sep [] = []"
| "join sep [x] = x"
| "join sep (x # y # ys) = x @ sep @ join sep (y # ys)"

text \<open>\<^verbatim>\<open>String.prototype.trim\<close>: white space and line terminators below 256.\<close>

definition is_space :: "char \<Rightarrow> bool" where
  "is_space c = (c \<in> set [CHR 0x09, CHR 0x0A, CHR 0x0B, CHR 0x0C, CHR 0x0D, CHR 0x20, CHR 0xA0])"

definition trim :: "string \<Rightarrow> string" where
  "trim s = rev (dropWhile is_space (rev (dropWhile is_space s)))"

text \<open>\<^verbatim>\<open>String.prototype.toLowerCase\<close> on code units below 256.\<close>

definition lower_char :: "char \<Rightarrow> char" where
  "lower_char c =
     (let n = (of_char c :: nat)
      in if (65 \<le> n \<and> n \<le> 90) \<or> (192 \<le> n \<and> n \<le> 222 \<and> n \<noteq> 215)
         then char_of (n + 32) else c)"

definition toLowerCase :: "string \<Rightarrow> string" where
  "toLowerCase s = map lower_char s"

text \<open>\<^verbatim>\<open>replace(/c/g, r)\<close> for a single character \<open>c\<close>.\<close>

definition replace_all :: "char \<Rightarrow> string \<Rightarrow> string \<Rightarrow> string" where
  "replace_all c r s = concat (map (\<lambda>x. if x = c then r else [x]) s)"

text \<open>A number as the decimal string that \<open>'' + i\<close> gives for an array index \<open>i\<close>.\<close>

fun show_nat :: "nat \<Rightarrow> string" where
  "show_nat n =
     (if n < 10 then [''0123456789'' ! n]
      else show_nat (n div 10) @ [''0123456789'' ! (n mod 10)])"

declare show_nat.simps [simp del]

section \<open>The data model\<close>

text \<open>
  \<open>msgstr\<close> is an array of strings in an entry, and a plain string in the override that
  \<open>compile\<close> passes for the header block.
\<close>

datatype strs = Str string | Arr "string list"

record entry =
  comments :: "(string \<times> string) list option"
  msgctxt :: "string option"
  msgid :: "string option"
  msgid_plural :: "string option"
  msgstr :: "strs option"

definition empty_entry :: entry where
  "empty_entry =
     \<lparr>comments = None, msgctxt = None, msgid = None, msgid_plural = None, msgstr = None\<rparr>"

type_synonym js_context = "(string \<times> entry jsval) list"

type_synonym js_translations = "(string \<times> js_context jsval) list"

text \<open>
  The translation table. A field that is \<open>None\<close> is \<^verbatim>\<open>undefined\<close> or \<^verbatim>\<open>null\<close>. The field
  \<^verbatim>\<open>translations\<close> is written \<open>translations'\<close>, since the plain word is reserved.
\<close>

record table =
  charset :: "string option"
  headers :: "(string \<times> string) list option"
  translations' :: "js_translations option"

datatype sortopt = SortBool bool | SortFun "entry jsval \<Rightarrow> entry jsval \<Rightarrow> error + int"

text \<open>The options object; \<open>None\<close> is a key that is not \<^verbatim>\<open>in\<close> the object.\<close>

record options =
  foldLength :: "int option"
  sort :: "sortopt option"

datatype buffer = BufferFrom string | EncodingConvert string "string option"

fun buffer_text :: "buffer \<Rightarrow> string" where
  "buffer_text (BufferFrom s) = s"
| "buffer_text (EncodingConvert s _) = s"

text \<open>
  The functions of \<^verbatim>\<open>./shared\<close> that the compiler calls. That module is not among the
  sources, so the compiler is modelled over any such functions.
\<close>

record shared =
  formatCharset :: "string option \<Rightarrow> string option"
  foldLine :: "string \<Rightarrow> int \<Rightarrow> string list"
  generateHeader :: "(string \<times> string) list option \<Rightarrow> string"

text \<open>The compiler object: \<open>_table\<close>, \<open>_options\<close> and \<open>_charset\<close>.\<close>

record compiler =
  c_table :: table
  c_options :: options
  c_charset :: "string option"

section \<open>The compiler\<close>

subsection \<open>\<open>compare\<close>\<close>

text \<open>
  Reading a property of a value: of an object the field, of \<^verbatim>\<open>null\<close> and \<^verbatim>\<open>undefined\<close> a
  \<^verbatim>\<open>TypeError\<close>, of any other primitive \<^verbatim>\<open>undefined\<close> (none of the names read here is a
  property of a string, number or boolean).
\<close>

fun get_prop :: "(entry \<Rightarrow> 'a option) \<Rightarrow> entry jsval \<Rightarrow> error + 'a option" where
  "get_prop f (Obj e) = Inr (f e)"
| "get_prop f Null = Inl TypeError"
| "get_prop f (Prim p) = (if p = PUndefined then Inl TypeError else Inr None)"

definition compare :: "entry jsval \<Rightarrow> entry jsval \<Rightarrow> error + int" where
  "compare r1 r2 =
     bind (get_prop msgid r1) (\<lambda>m1. bind (get_prop msgid r2) (\<lambda>m2.
       Inr (if js_gt m1 m2 then 1 else if js_gt m2 m1 then - 1 else 0)))"

subsection \<open>\<open>_drawComments\<close>\<close>

definition comment_types :: "(string \<times> string) list" where
  "comment_types =
     [(''translator'', ''# ''), (''reference'', ''#: ''), (''extracted'', ''#. ''),
      (''flag'', ''#, ''), (''previous'', ''#| '')]"

definition drawComments :: "(string \<times> string) list \<Rightarrow> string" where
  "drawComments cs =
     join [LF] (concat (map (\<lambda>(key, prefix).
       (if \<not> truthy_str (map_of cs key) then []
        else map (\<lambda>line. prefix @ line) (split_lines (or_empty (map_of cs key)))))
       comment_types))"

subsection \<open>\<open>_addPOString\<close>\<close>

definition escape :: "string \<Rightarrow> string" where
  "escape v =
     replace_all LF [BSL, CHR ''n'']
       (replace_all CR [BSL, CHR ''r'']
         (replace_all TAB [BSL, CHR ''t'']
           (replace_all DQ [BSL, DQ]
             (replace_all BSL [BSL, BSL] v))))"

definition addPOString :: "shared \<Rightarrow> options \<Rightarrow> string \<Rightarrow> string \<Rightarrow> string" where
  "addPOString sh opts key v =
     (let val = escape v;
          lines = (case foldLength opts of
                     None \<Rightarrow> [val]
                   | Some n \<Rightarrow> (if 0 < n then foldLine sh val n else [val]))
      in if length lines < 2
         then key @ [CHR '' '', DQ] @ (case lines of [] \<Rightarrow> [] | l # _ \<Rightarrow> l) @ [DQ]
         else key @ [CHR '' '', DQ, DQ, LF, DQ] @ join [DQ, LF, DQ] lines @ [DQ])"

subsection \<open>\<open>_drawBlock\<close>\<close>

text \<open>\<open>override.f || block.f\<close>: the block is read only when the override's field is falsy.\<close>

definition or_prop ::
  "('a option \<Rightarrow> bool) \<Rightarrow> (entry \<Rightarrow> 'a option) \<Rightarrow> entry \<Rightarrow> entry jsval \<Rightarrow> error + 'a option" where
  "or_prop tr f ov block = (if tr (f ov) then Inr (f ov) else get_prop f block)"

fun truthy_obj :: "'a option \<Rightarrow> bool" where
  "truthy_obj None = False"
| "truthy_obj (Some _) = True"

fun truthy_strs :: "strs option \<Rightarrow> bool" where
  "truthy_strs None = False"
| "truthy_strs (Some (Str s)) = (s \<noteq> [])"
| "truthy_strs (Some (Arr _)) = True"

text \<open>\<open>[].concat(x)\<close>: an array is spread, anything else becomes the one element.\<close>

fun concat_strs :: "strs option \<Rightarrow> string option list" where
  "concat_strs None = [None]"
| "concat_strs (Some (Str s)) = [Some s]"
| "concat_strs (Some (Arr xs)) = map Some xs"

text \<open>The array \<open>response\<close> of \<open>_drawBlock\<close>, from the five values read at its start.\<close>

definition block_lines ::
  "shared \<Rightarrow> options \<Rightarrow> (string \<times> string) list option \<Rightarrow> string option \<Rightarrow> string option
     \<Rightarrow> string option \<Rightarrow> string option list \<Rightarrow> string list" where
  "block_lines sh opts cs ctxt mid msgidPlural mstr =
     (case cs of None \<Rightarrow> []
      | Some c \<Rightarrow> (if drawComments c \<noteq> [] then [drawComments c] else []))
     @ (if truthy_str ctxt then [addPOString sh opts ''msgctxt'' (or_empty ctxt)] else [])
     @ [addPOString sh opts ''msgid'' (or_empty mid)]
     @ (if truthy_str msgidPlural
        then addPOString sh opts ''msgid_plural'' (or_empty msgidPlural)
             # map (\<lambda>(i, m). addPOString sh opts (''msgstr['' @ show_nat i @ '']'') (or_empty m))
                 (enumerate 0 mstr)
        else [addPOString sh opts ''msgstr''
                (or_empty (case mstr of [] \<Rightarrow> None | m # _ \<Rightarrow> m))])"

definition drawBlock ::
  "shared \<Rightarrow> options \<Rightarrow> entry jsval \<Rightarrow> entry option \<Rightarrow> error + string" where
  "drawBlock sh opts block override =
     (let ov = (case override of None \<Rightarrow> empty_entry | Some e \<Rightarrow> e) in
      bind (or_prop truthy_obj comments ov block) (\<lambda>cs.
      bind (or_prop truthy_str msgctxt ov block) (\<lambda>ctxt.
      bind (or_prop truthy_str msgid ov block) (\<lambda>mid.
      bind (or_prop truthy_str msgid_plural ov block) (\<lambda>msgidPlural.
      bind (or_prop truthy_strs msgstr ov block) (\<lambda>ms.
        Inr (join [LF] (block_lines sh opts cs ctxt mid msgidPlural (concat_strs ms)))))))))"

subsection \<open>\<open>_handleCharset\<close>\<close>

text \<open>
  The callback of \<open>parts.map\<close>, which assigns the variable \<open>charset\<close> of the enclosing
  function: the parts are mapped from left to right and the variable is threaded through.
\<close>

fun map_params :: "shared \<Rightarrow> string option \<Rightarrow> string list \<Rightarrow> string list \<times> string option" where
  "map_params sh cset [] = ([], cset)"
| "map_params sh cset (part # rest) =
     (let ps = split_on (CHR ''='') part;
          key = trim (hd ps);
          val = join ''='' (tl ps)
      in if toLowerCase key = ''charset''
         then (let cset' = (if \<not> truthy_str cset
                            then formatCharset sh
                                   (Some (if trim val \<noteq> [] then trim val else ''utf-8''))
                            else cset);
                   r = map_params sh cset' rest
               in ((''charset='' @ to_string cset') # fst r, snd r))
         else (let r = map_params sh cset rest in (part # fst r, snd r)))"

definition handleCharset :: "shared \<Rightarrow> compiler \<Rightarrow> error + compiler" where
  "handleCharset sh c =
     (case headers (c_table c) of
        None \<Rightarrow> Inl TypeError
      | Some hs \<Rightarrow>
          (let parts = split_on (CHR '';'')
                         (if truthy_str (map_of hs ''content-type'')
                          then or_empty (map_of hs ''content-type'') else ''text/plain'');
               contentType = hd parts;
               r = map_params sh (formatCharset sh (charset (c_table c))) (tl parts);
               cset = (if \<not> truthy_str (snd r)
                       then Some (if truthy_str (charset (c_table c))
                                  then or_empty (charset (c_table c)) else ''utf-8'')
                       else snd r);
               params = (if \<not> truthy_str (snd r)
                         then fst r @ [''charset='' @ to_string cset] else fst r)
           in Inr (c\<lparr>c_table := (c_table c)
                        \<lparr>charset := cset,
                         headers := Some (set_prop hs ''content-type''
                                            (contentType @ ''; '' @ join ''; '' params))\<rparr>,
                    c_charset := cset\<rparr>)))"

subsection \<open>The constructor\<close>

definition Compiler :: "shared \<Rightarrow> table option \<Rightarrow> options option \<Rightarrow> error + compiler" where
  "Compiler sh tbl opts =
     (let t0 = (case tbl of None \<Rightarrow> \<lparr>charset = None, headers = None, translations' = None\<rparr>
                | Some t \<Rightarrow> t);
          t1 = t0\<lparr>headers := Some (case headers t0 of None \<Rightarrow> [] | Some h \<Rightarrow> h)\<rparr>;
          t2 = t1\<lparr>translations' := Some (case translations' t1 of None \<Rightarrow> [] | Some x \<Rightarrow> x)\<rparr>;
          o0 = (case opts of None \<Rightarrow> \<lparr>foldLength = None, sort = None\<rparr> | Some o' \<Rightarrow> o');
          o1 = (if foldLength o0 = None then o0\<lparr>foldLength := Some 76\<rparr> else o0);
          o2 = (case sort o1 of None \<Rightarrow> o1\<lparr>sort := Some (SortBool False)\<rparr> | Some _ \<Rightarrow> o1)
      in handleCharset sh \<lparr>c_table = t2, c_options = o2, c_charset = None\<rparr>)"

subsection \<open>\<open>compile\<close>\<close>

text \<open>
  \<open>(translations[''] && translations['']['']) || {}\<close>. A falsy value on either level
  gives the empty object, and so does a truthy primitive context, whose property \<open>''\<close> is
  \<^verbatim>\<open>undefined\<close>.
\<close>

definition headerBlock :: "js_translations \<Rightarrow> entry jsval" where
  "headerBlock tr =
     (case map_of tr [] of
        Some (Obj ctx) \<Rightarrow>
          (case map_of ctx [] of
             Some v \<Rightarrow> (if truthy v then v else Obj empty_entry)
           | None \<Rightarrow> Obj empty_entry)
      | _ \<Rightarrow> Obj empty_entry)"

text \<open>The inner \<open>forEach\<close>, over the keys of one context.\<close>

fun collect_entries :: "js_context \<Rightarrow> string \<Rightarrow> string list \<Rightarrow> entry jsval list" where
  "collect_entries ctx ctxt [] = []"
| "collect_entries ctx ctxt (mid # rest) =
     (case map_of ctx mid of
        None \<Rightarrow> collect_entries ctx ctxt rest
      | Some v \<Rightarrow>
          (if \<not> typeof_object v then collect_entries ctx ctxt rest
           else if ctxt = [] \<and> mid = [] then collect_entries ctx ctxt rest
           else v # collect_entries ctx ctxt rest))"

text \<open>
  The outer \<open>forEach\<close>, over the keys of \<open>translations\<close>. A context that is \<^verbatim>\<open>null\<close> passes
  the \<^verbatim>\<open>typeof\<close> test, and \<^verbatim>\<open>Object.keys(null)\<close> throws.
\<close>

fun collect_contexts :: "js_translations \<Rightarrow> string list \<Rightarrow> error + entry jsval list" where
  "collect_contexts tr [] = Inr []"
| "collect_contexts tr (ctxt # rest) =
     (case map_of tr ctxt of
        Some (Obj ctx) \<Rightarrow>
          bind (collect_contexts tr rest) (\<lambda>r. Inr (collect_entries ctx ctxt (keys ctx) @ r))
      | Some Null \<Rightarrow> Inl TypeError
      | _ \<Rightarrow> collect_contexts tr rest)"

text \<open>
  \<^verbatim>\<open>Array.prototype.sort\<close> with a comparator. ECMAScript fixes the result for a consistent
  comparator: the stable sorted arrangement. The model is the stable insertion sort; an
  exception of the comparator ends the sort.
\<close>

fun insert_by :: "('a \<Rightarrow> 'a \<Rightarrow> error + int) \<Rightarrow> 'a \<Rightarrow> 'a list \<Rightarrow> error + 'a list" where
  "insert_by cmp x [] = Inr [x]"
| "insert_by cmp x (y # ys) =
     bind (cmp x y) (\<lambda>r.
       if r \<le> 0 then Inr (x # y # ys)
       else bind (insert_by cmp x ys) (\<lambda>zs. Inr (y # zs)))"

fun js_sort :: "('a \<Rightarrow> 'a \<Rightarrow> error + int) \<Rightarrow> 'a list \<Rightarrow> error + 'a list" where
  "js_sort cmp [] = Inr []"
| "js_sort cmp (x # xs) = bind (js_sort cmp xs) (insert_by cmp x)"

fun is_false :: "sortopt option \<Rightarrow> bool" where
  "is_false (Some (SortBool b)) = (\<not> b)"
| "is_false _ = False"

definition sort_response :: "options \<Rightarrow> entry jsval list \<Rightarrow> error + entry jsval list" where
  "sort_response opts response =
     (if \<not> is_false (sort opts)
      then (case sort opts of
              Some (SortFun f) \<Rightarrow> js_sort f response
            | _ \<Rightarrow> js_sort compare response)
      else Inr response)"

definition compile :: "shared \<Rightarrow> compiler \<Rightarrow> error + buffer" where
  "compile sh c =
     (case translations' (c_table c) of
        None \<Rightarrow> Inl TypeError
      | Some tr \<Rightarrow>
          bind (collect_contexts tr (keys tr)) (\<lambda>collected.
          bind (sort_response (c_options c) collected) (\<lambda>sorted.
          bind (mapM (\<lambda>r. drawBlock sh (c_options c) r None) sorted) (\<lambda>blocks.
          bind (drawBlock sh (c_options c) (headerBlock tr)
                  (Some (empty_entry\<lparr>msgstr :=
                           Some (Str (generateHeader sh (headers (c_table c))))\<rparr>))) (\<lambda>hb.
            (let response = join [LF, LF] (hb # blocks)
             in if c_charset c = Some ''utf-8'' \<or> c_charset c = Some ''ascii''
                then Inr (BufferFrom response)
                else Inr (EncodingConvert response (c_charset c))))))))"

subsection \<open>The exported function\<close>

text \<open>
  \<open>module.exports\<close>: construct a compiler and compile. The compiler's \<open>_table\<close> and
  \<open>_options\<close> are the caller's own objects whenever the caller passed objects, so beside
  the buffer the result holds what these two objects contain after the call.
\<close>

definition compilePO ::
  "shared \<Rightarrow> table option \<Rightarrow> options option \<Rightarrow> error + buffer \<times> table \<times> options" where
  "compilePO sh tbl opts =
     bind (Compiler sh tbl opts) (\<lambda>c.
     bind (compile sh c) (\<lambda>b. Inr (b, c_table c, c_options c)))"

section \<open>The functions of \<open>./shared\<close>, from the spec\<close>

text \<open>
  Modelled from the spec: \<open>formatCharset\<close> of \<^verbatim>\<open>./shared\<close>, which is not among the sources.
  The spec (\<open>normalizeCharsetName\<close>): lower-cases and maps known aliases, "utf8" to
  "utf-8"; returns the input unchanged if unrecognized; never fails. The alias the spec
  names is the one modelled, and no name (\<^verbatim>\<open>undefined\<close>) is returned as it is.
\<close>

definition spec_formatCharset :: "string option \<Rightarrow> string option" where
  "spec_formatCharset name =
     (case name of
        None \<Rightarrow> None
      | Some s \<Rightarrow> Some (if toLowerCase s = ''utf8'' then ''utf-8'' else toLowerCase s))"

text \<open>
  Modelled from the spec: \<open>foldLine\<close> of \<^verbatim>\<open>./shared\<close>, which is not among the sources.
  The spec: splits the text into pieces no longer than \<open>maxWidth\<close>, breaking
  preferentially at whitespace boundaries without splitting an escape sequence across
  pieces; if \<open>maxWidth <= 0\<close>, returns the text as a single piece. Here a piece ends after
  the last white space among its first \<open>maxWidth\<close> characters, or else after \<open>maxWidth\<close>
  characters, moved by one where that would part a backslash from the character it
  escapes; a text that fits is one piece.
\<close>

definition ends_in_escape :: "string \<Rightarrow> bool" where
  "ends_in_escape p = odd (length (takeWhile (\<lambda>c. c = BSL) (rev p)))"

definition break_at :: "nat \<Rightarrow> string \<Rightarrow> nat" where
  "break_at n str =
     (let w = take n str;
          k = length w - length (takeWhile (\<lambda>c. \<not> is_space c) (rev w))
      in if 0 < k then k
         else if ends_in_escape w then (if 1 < length w then length w - 1 else length w + 1)
         else length w)"

function fold_pieces :: "nat \<Rightarrow> string \<Rightarrow> string list" where
  "fold_pieces n str =
     (if n = 0 \<or> length str \<le> n then [str]
      else take (break_at n str) str # fold_pieces n (drop (break_at n str) str))"
  by pat_completeness auto
termination
proof (relation "measure (\<lambda>(n, str). length str)")
  show "wf (measure (\<lambda>(n, str). length str))"
    by simp
next
  fix n :: nat and str :: string
  assume "\<not> (n = 0 \<or> length str \<le> n)"
  then have "0 < break_at n str" and "str \<noteq> []"
    by (auto simp: break_at_def Let_def)
  then show "((n, drop (break_at n str) str), (n, str)) \<in> measure (\<lambda>(n, str). length str)"
    by simp
qed

declare fold_pieces.simps [simp del]

definition spec_foldLine :: "string \<Rightarrow> int \<Rightarrow> string list" where
  "spec_foldLine str maxWidth =
     (if maxWidth \<le> 0 then [str] else fold_pieces (nat maxWidth) str)"

text \<open>
  Modelled from the spec: \<open>generateHeader\<close> of \<^verbatim>\<open>./shared\<close>, which is not among the sources.
  The spec (\<open>generateHeaderBlock\<close>): renders the header mapping as the newline-joined
  \<open>key: value\<close> pairs, preserving the headers' iteration order as supplied.
\<close>

definition spec_generateHeader :: "(string \<times> string) list option \<Rightarrow> string" where
  "spec_generateHeader hs =
     join [LF] (map (\<lambda>(k, v). k @ '': '' @ v) (case hs of None \<Rightarrow> [] | Some h \<Rightarrow> h))"

definition spec_shared :: shared where
  "spec_shared =
     \<lparr>formatCharset = spec_formatCharset, foldLine = spec_foldLine,
      generateHeader = spec_generateHeader\<rparr>"

section \<open>Notions used in the statements\<close>

text \<open>The escape sequence of one character.\<close>

definition escape_char :: "char \<Rightarrow> string" where
  "escape_char c =
     (if c = BSL then [BSL, BSL]
      else if c = DQ then [BSL, DQ]
      else if c = TAB then [BSL, CHR ''t'']
      else if c = CR then [BSL, CHR ''r'']
      else if c = LF then [BSL, CHR ''n'']
      else [c])"

text \<open>
  The string \<open>line one<LF>line two<TAB>"quoted"\<close> and the PO line
  \<open>msgstr "line one\nline two\t\"quoted\""\<close>.
\<close>

definition example_msgstr :: string where
  "example_msgstr = ''line one'' @ [LF] @ ''line two'' @ [TAB, DQ] @ ''quoted'' @ [DQ]"

definition example_po :: string where
  "example_po =
     ''msgstr '' @ [DQ] @ ''line one'' @ [BSL] @ ''nline two'' @ [BSL] @ ''t''
       @ [BSL, DQ] @ ''quoted'' @ [BSL, DQ, DQ]"

text \<open>The parts of a block that come before its \<open>msgid\<close> line.\<close>

definition comment_lines :: "entry \<Rightarrow> string list" where
  "comment_lines e =
     (case comments e of None \<Rightarrow> []
      | Some c \<Rightarrow> (if drawComments c \<noteq> [] then [drawComments c] else []))"

definition msgctxt_lines :: "shared \<Rightarrow> options \<Rightarrow> entry \<Rightarrow> string list" where
  "msgctxt_lines sh opts e =
     (if truthy_str (msgctxt e) then [addPOString sh opts ''msgctxt'' (or_empty (msgctxt e))]
      else [])"

text \<open>The block of an entry that is an object, drawn without an override.\<close>

definition entry_block :: "shared \<Rightarrow> options \<Rightarrow> entry \<Rightarrow> string" where
  "entry_block sh opts e =
     join [LF] (block_lines sh opts (comments e) (msgctxt e) (msgid e) (msgid_plural e)
       (concat_strs (msgstr e)))"

text \<open>\<open>msgstr[0] || ''\<close> of an entry.\<close>

definition first_msgstr :: "entry \<Rightarrow> string" where
  "first_msgstr e = or_empty (case concat_strs (msgstr e) of [] \<Rightarrow> None | m # _ \<Rightarrow> m)"

text \<open>
  The entry \<open>{msgid: "cat", msgid_plural: "cats", msgstr: ["1 cat", "%d cats"]}\<close> and the
  four lines the spec gives for it.
\<close>

definition cat_entry :: entry where
  "cat_entry =
     \<lparr>comments = None, msgctxt = None, msgid = Some ''cat'', msgid_plural = Some ''cats'',
      msgstr = Some (Arr [''1 cat'', ''%d cats''])\<rparr>"


text \<open>
  The entries that \<open>compile\<close> is to draw as normal blocks, read off the mapping pair by
  pair: every entry object of every context object, in traversal order, but for the pair
  of the empty context and the empty \<open>msgid\<close>.
\<close>

fun ctx_entries :: "string \<Rightarrow> js_context \<Rightarrow> entry list" where
  "ctx_entries ctxt [] = []"
| "ctx_entries ctxt ((mid, e) # rest) =
     (case e of
        Obj x \<Rightarrow> (if ctxt = [] \<and> mid = [] then ctx_entries ctxt rest
                  else x # ctx_entries ctxt rest)
      | _ \<Rightarrow> ctx_entries ctxt rest)"

fun normal_entries :: "js_translations \<Rightarrow> entry list" where
  "normal_entries [] = []"
| "normal_entries ((ctxt, v) # rest) =
     (case v of
        Obj ctx \<Rightarrow> ctx_entries ctxt ctx @ normal_entries rest
      | _ \<Rightarrow> normal_entries rest)"

text \<open>
  Conditions on a table: no key occurs twice in an object, and no context and no entry
  is \<^verbatim>\<open>null\<close> (but for the header's place, which \<open>compile\<close> never draws as an entry).
\<close>

definition entries_ok :: "string \<Rightarrow> js_context \<Rightarrow> bool" where
  "entries_ok ctxt kvs =
     list_all (\<lambda>(mid, e). case e of Null \<Rightarrow> ctxt = [] \<and> mid = [] | _ \<Rightarrow> True) kvs"

definition unique_keys :: "js_translations \<Rightarrow> bool" where
  "unique_keys tr =
     (distinct (keys tr) \<and>
      list_all (\<lambda>(ctxt, v). case v of Obj ctx \<Rightarrow> distinct (keys ctx) | _ \<Rightarrow> True) tr)"

definition no_null :: "js_translations \<Rightarrow> bool" where
  "no_null tr =
     list_all (\<lambda>(ctxt, v). case v of
         Obj ctx \<Rightarrow> entries_ok ctxt ctx
       | Null \<Rightarrow> False
       | Prim _ \<Rightarrow> True) tr"

text \<open>
  The header block: the pseudo-entry under the empty context and the empty \<open>msgid\<close> when
  it is an object, else the empty entry, with \<open>msgstr\<close> replaced by the generated header
  when that is not empty.
\<close>

definition header_entry :: "js_translations \<Rightarrow> entry" where
  "header_entry tr =
     (case map_of tr [] of
        Some (Obj ctx) \<Rightarrow> (case map_of ctx [] of Some (Obj e) \<Rightarrow> e | _ \<Rightarrow> empty_entry)
      | _ \<Rightarrow> empty_entry)"

definition header_block :: "shared \<Rightarrow> compiler \<Rightarrow> js_translations \<Rightarrow> string" where
  "header_block sh c tr =
     (let h = generateHeader sh (headers (c_table c))
      in entry_block sh (c_options c)
           (if h \<noteq> [] then (header_entry tr)\<lparr>msgstr := Some (Str h)\<rparr> else header_entry tr))"

definition to_buffer :: "compiler \<Rightarrow> string \<Rightarrow> buffer" where
  "to_buffer c s =
     (if c_charset c = Some ''utf-8'' \<or> c_charset c = Some ''ascii'' then BufferFrom s
      else EncodingConvert s (c_charset c))"

text \<open>The stable insertion sort on a comparator that does not throw.\<close>

fun ins :: "('a \<Rightarrow> 'a \<Rightarrow> int) \<Rightarrow> 'a \<Rightarrow> 'a list \<Rightarrow> 'a list" where
  "ins g x [] = [x]"
| "ins g x (y # ys) = (if g x y \<le> 0 then x # y # ys else y # ins g x ys)"

fun isort :: "('a \<Rightarrow> 'a \<Rightarrow> int) \<Rightarrow> 'a list \<Rightarrow> 'a list" where
  "isort g [] = []"
| "isort g (x # xs) = ins g x (isort g xs)"

text \<open>The value \<open>compare\<close> returns on two entry objects.\<close>

definition cmp_msgid :: "entry \<Rightarrow> entry \<Rightarrow> int" where
  "cmp_msgid a b =
     (if js_gt (msgid a) (msgid b) then 1 else if js_gt (msgid b) (msgid a) then - 1 else 0)"

text \<open>A table with three entries in two contexts, a header place-holder and two primitives.\<close>

definition pear :: entry where
  "pear = \<lparr>comments = None, msgctxt = None, msgid = Some ''pear'', msgid_plural = None,
            msgstr = Some (Arr [''Birne''])\<rparr>"

definition apple :: entry where
  "apple = \<lparr>comments = None, msgctxt = None, msgid = Some ''apple'', msgid_plural = None,
             msgstr = Some (Arr [''Apfel''])\<rparr>"

definition fig :: entry where
  "fig = \<lparr>comments = None, msgctxt = Some ''menu'', msgid = Some ''fig'', msgid_plural = None,
           msgstr = Some (Arr [''Feige''])\<rparr>"

definition example_translations :: js_translations where
  "example_translations =
     [([], Obj [([], Obj empty_entry), (''pear'', Obj pear), (''apple'', Obj apple),
                (''n'', Prim (PNum 3))]),
      (''menu'', Obj [(''fig'', Obj fig)]),
      (''x'', Prim (PStr ''y''))]"

definition example_compiler :: "sortopt \<Rightarrow> compiler" where
  "example_compiler s =
     \<lparr>c_table = \<lparr>charset = Some ''utf-8'',
                  headers = Some [(''content-type'', ''text/plain; charset=utf-8'')],
                  translations' = Some example_translations\<rparr>,
      c_options = \<lparr>foldLength = Some 76, sort = Some s\<rparr>,
      c_charset = Some ''utf-8''\<rparr>"

text \<open>
  What the constructor leaves in the table and in the options: \<open>headers\<close> and
  \<open>translations\<close> of the table given (each \<open>{}\<close> when absent), and the options with their
  defaults filled in.
\<close>

definition headers_of :: "table option \<Rightarrow> (string \<times> string) list" where
  "headers_of tbl =
     (case tbl of None \<Rightarrow> [] | Some t \<Rightarrow> (case headers t of None \<Rightarrow> [] | Some h \<Rightarrow> h))"

definition translations_of :: "table option \<Rightarrow> js_translations" where
  "translations_of tbl =
     (case tbl of None \<Rightarrow> [] | Some t \<Rightarrow> (case translations' t of None \<Rightarrow> [] | Some x \<Rightarrow> x))"

definition options_of :: "options option \<Rightarrow> options" where
  "options_of opts =
     \<lparr>foldLength = Some (case opts of None \<Rightarrow> 76
                          | Some o' \<Rightarrow> (case foldLength o' of None \<Rightarrow> 76 | Some n \<Rightarrow> n)),
      sort = Some (case opts of None \<Rightarrow> SortBool False
                    | Some o' \<Rightarrow> (case sort o' of None \<Rightarrow> SortBool False | Some s \<Rightarrow> s))\<rparr>"

text \<open>A table with no charset and no header, an options object with no key, and two outputs.\<close>

definition bare_table :: table where
  "bare_table = \<lparr>charset = None, headers = Some [], translations' = Some []\<rparr>"

definition bare_options :: options where
  "bare_options = \<lparr>foldLength = None, sort = None\<rparr>"

definition header_only_utf8 :: string where
  "header_only_utf8 =
     ''msgid '' @ [DQ, DQ, LF] @ ''msgstr '' @ [DQ]
       @ ''content-type: text/plain; charset=utf-8'' @ [DQ]"

definition header_no_charset :: string where
  "header_no_charset =
     ''msgid '' @ [DQ, DQ, LF] @ ''msgstr '' @ [DQ] @ ''content-type: text/plain; '' @ [DQ]"

text \<open>
  The order in which \<^verbatim>\<open>Object.keys\<close> lists the properties of an object (ECMAScript,
  OrdinaryOwnPropertyKeys): first the keys that are array indices, in ascending numeric
  order, then the other keys, in the order in which the properties were created. An array
  index is the decimal numeral, with no leading zero, of an integer from 0 to 4294967294.
\<close>

definition digits :: "(char \<times> nat) list" where
  "digits = [(CHR ''0'', 0), (CHR ''1'', 1), (CHR ''2'', 2), (CHR ''3'', 3), (CHR ''4'', 4),
             (CHR ''5'', 5), (CHR ''6'', 6), (CHR ''7'', 7), (CHR ''8'', 8), (CHR ''9'', 9)]"

fun decimal :: "nat \<Rightarrow> string \<Rightarrow> nat option" where
  "decimal n [] = Some n"
| "decimal n (c # cs) =
     (case map_of digits c of None \<Rightarrow> None | Some d \<Rightarrow> decimal (10 * n + d) cs)"

definition array_index :: "string \<Rightarrow> nat option" where
  "array_index s =
     (case s of
        [] \<Rightarrow> None
      | c # cs \<Rightarrow>
          (if c = CHR ''0'' \<and> cs \<noteq> [] then None
           else (case decimal 0 s of
                   None \<Rightarrow> None
                 | Some n \<Rightarrow> (if n < 4294967295 then Some n else None))))"












section \<open>Basic facts\<close>

lemma bind_Inr [simp]: "bind (Inr x) f = f x"
  by (simp add: bind_def)

lemma bind_Inl [simp]: "bind (Inl e) f = Inl e"
  by (simp add: bind_def)

lemma bind_eq_Inr: "bind m f = Inr y \<longleftrightarrow> (\<exists>x. m = Inr x \<and> f x = Inr y)"
  by (cases m) simp_all

lemma replace_all_Nil [simp]: "replace_all c r [] = []"
  by (simp add: replace_all_def)

lemma replace_all_Cons [simp]:
  "replace_all c r (x # xs) = (if x = c then r else [x]) @ replace_all c r xs"
  by (simp add: replace_all_def)

lemma replace_all_append [simp]:
  "replace_all c r (xs @ ys) = replace_all c r xs @ replace_all c r ys"
  by (simp add: replace_all_def)

lemma fold_fits: "0 < n \<Longrightarrow> int (length t) \<le> n \<Longrightarrow> spec_foldLine t n = [t]"
  by (simp add: spec_foldLine_def fold_pieces.simps)

section \<open>Escaping\<close>

lemma escape_Nil [simp]: "escape [] = []"
  by (simp add: escape_def)

lemma escape_Cons: "escape (c # cs) = escape_char c @ escape cs"
  by (simp add: escape_def escape_char_def)

lemma escape_example:
  "escape example_msgstr =
     ''line one'' @ [BSL] @ ''nline two'' @ [BSL] @ ''t'' @ [BSL, DQ] @ ''quoted'' @ [BSL, DQ]"
  by (simp add: example_msgstr_def escape_Cons escape_char_def)

text \<open>
  C7. The five replacements of \<open>_addPOString\<close>, applied one after the other, replace every
  backslash, double quote, tab, carriage return and newline of the value by its
  two-character escape sequence and leave every other character as it is. With folding off,
  or with a \<open>foldLine\<close> that leaves this escaped text (30 characters) in one piece, the value
  \<open>line one<LF>line two<TAB>"quoted"\<close> under the key \<open>msgstr\<close> gives exactly the line
  \<open>msgstr "line one\nline two\t\"quoted\""\<close>.
\<close>

theorem escape_two_character_sequences:
  "escape v = concat (map escape_char v) \<and>
   ((\<forall>n. foldLength opts = Some n \<and> 0 < n \<longrightarrow>
          foldLine sh (escape example_msgstr) n = [escape example_msgstr])
    \<longrightarrow> addPOString sh opts ''msgstr'' example_msgstr = example_po)"
proof
  show "escape v = concat (map escape_char v)"
    by (induction v) (simp_all add: escape_Cons)
next
  show "(\<forall>n. foldLength opts = Some n \<and> 0 < n \<longrightarrow>
           foldLine sh (escape example_msgstr) n = [escape example_msgstr])
    \<longrightarrow> addPOString sh opts ''msgstr'' example_msgstr = example_po"
  proof
    assume h: "\<forall>n. foldLength opts = Some n \<and> 0 < n \<longrightarrow>
                 foldLine sh (escape example_msgstr) n = [escape example_msgstr]"
    have "addPOString sh opts ''msgstr'' example_msgstr
            = ''msgstr '' @ [DQ] @ escape example_msgstr @ [DQ]"
      using h by (auto simp: addPOString_def Let_def split: option.splits)
    then show "addPOString sh opts ''msgstr'' example_msgstr = example_po"
      by (simp add: escape_example example_po_def)
  qed
qed

theorem escape_two_character_sequences_witness:
  "foldLine spec_shared (escape example_msgstr) 76 = [escape example_msgstr] \<and>
   escape [BSL, DQ, TAB, CR, LF, CHR ''a'']
     = [BSL, BSL, BSL, DQ, BSL, CHR ''t'', BSL, CHR ''r'', BSL, CHR ''n'', CHR ''a''] \<and>
   addPOString spec_shared \<lparr>foldLength = Some 76, sort = Some (SortBool False)\<rparr>
     ''msgstr'' example_msgstr = example_po"
proof -
  have f: "foldLine spec_shared (escape example_msgstr) 76 = [escape example_msgstr]"
    by (simp add: spec_shared_def fold_fits escape_example)
  then show ?thesis
    using escape_two_character_sequences
      [of "[BSL, DQ, TAB, CR, LF, CHR ''a'']"
          "\<lparr>foldLength = Some 76, sort = Some (SortBool False)\<rparr>" spec_shared]
    by (simp add: escape_char_def)
qed

section \<open>\<open>_addPOString\<close>: folding\<close>

lemma addPOString_one_piece:
  assumes "\<forall>n. foldLength opts = Some n \<and> 0 < n \<longrightarrow> foldLine sh (escape v) n = [escape v]"
  shows "addPOString sh opts key v = key @ [CHR '' '', DQ] @ escape v @ [DQ]"
  using assms by (auto simp: addPOString_def Let_def split: option.splits)

lemma join_quoted:
  "lines \<noteq> [] \<Longrightarrow>
   [LF, DQ] @ join [DQ, LF, DQ] lines @ [DQ] = concat (map (\<lambda>p. [LF, DQ] @ p @ [DQ]) lines)"
  by (induction "[DQ, LF, DQ]" lines rule: join.induct) simp_all

lemma two_pieces:
  assumes "\<forall>p\<in>set ps. int (length p) \<le> n" and "n < int (length (concat ps))" and "0 < n"
  shows "2 \<le> length ps"
proof (cases ps)
  case Nil
  with assms show ?thesis by simp
next
  case (Cons p qs)
  show ?thesis
  proof (cases qs)
    case Nil
    with Cons assms show ?thesis by simp
  next
    case (Cons q rs)
    with \<open>ps = p # qs\<close> show ?thesis by simp
  qed
qed

text \<open>
  C6. Rendering a key and a value. When \<open>foldLength\<close> is positive and the escaped value is
  longer, the output is the line \<open>key ""\<close> followed by one quoted line per piece that
  \<open>foldLine\<close> returns; this rests on what the spec says of \<open>foldLine\<close> (it is not among the
  sources): no piece is longer than the width, and the pieces joined give the text back.
  When \<open>foldLength\<close> is absent, zero or negative, \<open>foldLine\<close> is not called and the output is
  the single line \<open>key "value"\<close>. The same holds for a value that fits, given that
  \<open>foldLine\<close> returns a fitting text as one piece.
\<close>

theorem addPOString_folds_long_values:
  "(foldLength opts = Some n \<and> 0 < n \<and> n < int (length (escape v))
      \<and> (\<forall>p\<in>set (foldLine sh (escape v) n). int (length p) \<le> n)
      \<and> concat (foldLine sh (escape v) n) = escape v
    \<longrightarrow> addPOString sh opts key v
          = key @ [CHR '' '', DQ, DQ]
              @ concat (map (\<lambda>p. [LF, DQ] @ p @ [DQ]) (foldLine sh (escape v) n)))
   \<and> ((foldLength opts = None \<or> (\<exists>m. foldLength opts = Some m \<and> m \<le> 0))
    \<longrightarrow> addPOString sh opts key v = key @ [CHR '' '', DQ] @ escape v @ [DQ])
   \<and> (foldLength opts = Some n \<and> 0 < n \<and> int (length (escape v)) \<le> n
      \<and> foldLine sh (escape v) n = [escape v]
    \<longrightarrow> addPOString sh opts key v = key @ [CHR '' '', DQ] @ escape v @ [DQ])"
proof (intro conjI impI)
  assume h: "foldLength opts = Some n \<and> 0 < n \<and> n < int (length (escape v))
      \<and> (\<forall>p\<in>set (foldLine sh (escape v) n). int (length p) \<le> n)
      \<and> concat (foldLine sh (escape v) n) = escape v"
  then have two: "2 \<le> length (foldLine sh (escape v) n)"
    using two_pieces [of "foldLine sh (escape v) n" n] by simp
  then have ne: "foldLine sh (escape v) n \<noteq> []"
    by auto
  have "addPOString sh opts key v
          = key @ [CHR '' '', DQ, DQ]
              @ ([LF, DQ] @ join [DQ, LF, DQ] (foldLine sh (escape v) n) @ [DQ])"
    using h two by (simp add: addPOString_def Let_def)
  then show "addPOString sh opts key v
          = key @ [CHR '' '', DQ, DQ]
              @ concat (map (\<lambda>p. [LF, DQ] @ p @ [DQ]) (foldLine sh (escape v) n))"
    by (simp only: join_quoted [OF ne])
next
  assume "foldLength opts = None \<or> (\<exists>m. foldLength opts = Some m \<and> m \<le> 0)"
  then show "addPOString sh opts key v = key @ [CHR '' '', DQ] @ escape v @ [DQ]"
    by (auto simp: addPOString_def Let_def)
next
  assume "foldLength opts = Some n \<and> 0 < n \<and> int (length (escape v)) \<le> n
      \<and> foldLine sh (escape v) n = [escape v]"
  then show "addPOString sh opts key v = key @ [CHR '' '', DQ] @ escape v @ [DQ]"
    by (simp add: addPOString_def Let_def)
qed

lemma fold_fox:
  "foldLine spec_shared (escape ''the quick brown fox'') 10 = [''the quick '', ''brown fox'']"
  by (simp add: spec_shared_def spec_foldLine_def fold_pieces.simps break_at_def escape_Cons
      escape_char_def is_space_def ends_in_escape_def)

theorem addPOString_folds_long_values_witness:
  "addPOString spec_shared \<lparr>foldLength = Some 10, sort = None\<rparr> ''msgid'' ''the quick brown fox''
     = ''msgid '' @ [DQ, DQ, LF, DQ] @ ''the quick '' @ [DQ, LF, DQ] @ ''brown fox'' @ [DQ]
   \<and> addPOString spec_shared \<lparr>foldLength = Some 0, sort = None\<rparr> ''msgid'' ''the quick brown fox''
     = ''msgid '' @ [DQ] @ ''the quick brown fox'' @ [DQ]
   \<and> addPOString spec_shared \<lparr>foldLength = Some 76, sort = None\<rparr> ''msgid'' ''the quick brown fox''
     = ''msgid '' @ [DQ] @ ''the quick brown fox'' @ [DQ]"
proof -
  have e: "escape ''the quick brown fox'' = ''the quick brown fox''"
    by (simp add: escape_Cons escape_char_def)
  have f: "foldLine spec_shared (escape ''the quick brown fox'') 76 = [escape ''the quick brown fox'']"
    by (simp add: spec_shared_def fold_fits e)
  show ?thesis
    using addPOString_folds_long_values
            [of "\<lparr>foldLength = Some 10, sort = None\<rparr>" 10 "''the quick brown fox''" spec_shared
                "''msgid''"]
          addPOString_folds_long_values
            [of "\<lparr>foldLength = Some 0, sort = None\<rparr>" 0 "''the quick brown fox''" spec_shared
                "''msgid''"]
          addPOString_folds_long_values
            [of "\<lparr>foldLength = Some 76, sort = None\<rparr>" 76 "''the quick brown fox''" spec_shared
                "''msgid''"]
          f fold_fox
    by (simp add: e)
qed

section \<open>\<open>_drawBlock\<close>: the lines of a block\<close>

lemma drawBlock_Obj: "drawBlock sh opts (Obj e) None = Inr (entry_block sh opts e)"
  by (simp add: drawBlock_def entry_block_def or_prop_def empty_entry_def)

lemma enumerate_map_nth:
  "map f (enumerate n xs) = map (\<lambda>i. f (n + i, xs ! i)) [0..<length xs]"
proof (induction xs arbitrary: n)
  case Nil
  then show ?case by simp
next
  case (Cons x xs)
  have "map (\<lambda>i. f (n + i, (x # xs) ! i)) [0..<length (x # xs)]
        = f (n, x) # map (\<lambda>i. f (n + Suc i, xs ! i)) [0..<length xs]"
    by (simp add: upt_conv_Cons map_Suc_upt [symmetric] del: upt_Suc)
  then show ?case using Cons.IH [of "Suc n"] by simp
qed

lemma plural_block:
  assumes "truthy_str (msgid_plural e)" and "msgstr e = Some (Arr xs)"
  shows "entry_block sh opts e =
     join [LF] (comment_lines e @ msgctxt_lines sh opts e
       @ [addPOString sh opts ''msgid'' (or_empty (msgid e)),
          addPOString sh opts ''msgid_plural'' (or_empty (msgid_plural e))]
       @ map (\<lambda>i. addPOString sh opts (''msgstr['' @ show_nat i @ '']'') (xs ! i))
           [0..<length xs])"
proof -
  have "map (\<lambda>(i, m). addPOString sh opts (''msgstr['' @ show_nat i @ '']'') (or_empty m))
          (enumerate 0 (map Some xs))
        = map (\<lambda>i. addPOString sh opts (''msgstr['' @ show_nat i @ '']'') (xs ! i))
            [0..<length xs]"
    by (simp add: enumerate_map_nth)
  then show ?thesis
    using assms
    by (simp add: entry_block_def block_lines_def comment_lines_def msgctxt_lines_def)
qed

lemma singular_block:
  assumes "\<not> truthy_str (msgid_plural e)"
  shows "entry_block sh opts e =
     join [LF] (comment_lines e @ msgctxt_lines sh opts e
       @ [addPOString sh opts ''msgid'' (or_empty (msgid e)),
          addPOString sh opts ''msgstr'' (first_msgstr e)])"
  using assms
  by (simp add: entry_block_def block_lines_def comment_lines_def msgctxt_lines_def
      first_msgstr_def)






text \<open>
  C10. An entry whose \<open>msgid_plural\<close> is truthy and whose \<open>msgstr\<close> is the empty array gives
  a block that ends with its \<open>msgid_plural\<close> line: no \<open>msgstr[n]\<close> line follows. An entry
  without a truthy \<open>msgid_plural\<close> gives exactly one \<open>msgstr\<close> element after the \<open>msgid\<close>
  line, for the first element of \<open>msgstr\<close>; when \<open>msgstr\<close> is absent its value is the
  empty string, and the line is \<open>msgstr ""\<close> (with folding off, or a \<open>foldLine\<close> that
  returns no piece or the empty piece for the empty text).
\<close>

theorem drawBlock_msgstr_lines:
  "(truthy_str (msgid_plural e) \<and> msgstr e = Some (Arr [])
    \<longrightarrow> drawBlock sh opts (Obj e) None =
          Inr (join [LF] (comment_lines e @ msgctxt_lines sh opts e
            @ [addPOString sh opts ''msgid'' (or_empty (msgid e)),
               addPOString sh opts ''msgid_plural'' (or_empty (msgid_plural e))])))
   \<and> (\<not> truthy_str (msgid_plural e)
    \<longrightarrow> drawBlock sh opts (Obj e) None =
          Inr (join [LF] (comment_lines e @ msgctxt_lines sh opts e
            @ [addPOString sh opts ''msgid'' (or_empty (msgid e)),
               addPOString sh opts ''msgstr'' (first_msgstr e)])))
   \<and> (msgstr e = None \<longrightarrow> first_msgstr e = [])
   \<and> ((\<forall>n. foldLength opts = Some n \<and> 0 < n
           \<longrightarrow> foldLine sh [] n = [] \<or> foldLine sh [] n = [[]])
    \<longrightarrow> addPOString sh opts ''msgstr'' [] = ''msgstr '' @ [DQ, DQ])"
proof (intro conjI impI)
  assume "truthy_str (msgid_plural e) \<and> msgstr e = Some (Arr [])"
  then show "drawBlock sh opts (Obj e) None =
          Inr (join [LF] (comment_lines e @ msgctxt_lines sh opts e
            @ [addPOString sh opts ''msgid'' (or_empty (msgid e)),
               addPOString sh opts ''msgid_plural'' (or_empty (msgid_plural e))]))"
    using plural_block [of e "[]" sh opts] by (simp add: drawBlock_Obj)
next
  assume "\<not> truthy_str (msgid_plural e)"
  then show "drawBlock sh opts (Obj e) None =
          Inr (join [LF] (comment_lines e @ msgctxt_lines sh opts e
            @ [addPOString sh opts ''msgid'' (or_empty (msgid e)),
               addPOString sh opts ''msgstr'' (first_msgstr e)]))"
    by (simp add: drawBlock_Obj singular_block)
next
  assume "msgstr e = None"
  then show "first_msgstr e = []"
    by (simp add: first_msgstr_def)
next
  assume "\<forall>n. foldLength opts = Some n \<and> 0 < n
            \<longrightarrow> foldLine sh [] n = [] \<or> foldLine sh [] n = [[]]"
  then show "addPOString sh opts ''msgstr'' [] = ''msgstr '' @ [DQ, DQ]"
    by (auto simp: addPOString_def Let_def split: option.splits)
qed

theorem drawBlock_msgstr_lines_witness:
  "drawBlock spec_shared \<lparr>foldLength = Some 76, sort = None\<rparr>
     (Obj (cat_entry\<lparr>msgstr := Some (Arr [])\<rparr>)) None
     = Inr (''msgid '' @ [DQ] @ ''cat'' @ [DQ, LF] @ ''msgid_plural '' @ [DQ] @ ''cats'' @ [DQ])
   \<and> drawBlock spec_shared \<lparr>foldLength = Some 76, sort = None\<rparr>
       (Obj (empty_entry\<lparr>msgid := Some ''cat''\<rparr>)) None
     = Inr (''msgid '' @ [DQ] @ ''cat'' @ [DQ, LF] @ ''msgstr '' @ [DQ, DQ])"
proof -
  let ?o = "\<lparr>foldLength = Some 76, sort = None\<rparr>"
  have f: "foldLine spec_shared t 76 = [t]" if "length t \<le> 76" for t
    using that by (simp add: spec_shared_def fold_fits)
  have a: "addPOString spec_shared ?o key ''cat'' = key @ [CHR '' '', DQ] @ ''cat'' @ [DQ]"
          "addPOString spec_shared ?o key ''cats'' = key @ [CHR '' '', DQ] @ ''cats'' @ [DQ]"
    for key
    by (subst addPOString_one_piece; simp add: f escape_Cons escape_char_def)+
  show ?thesis
    using drawBlock_msgstr_lines [of "cat_entry\<lparr>msgstr := Some (Arr [])\<rparr>" spec_shared ?o]
          drawBlock_msgstr_lines [of "empty_entry\<lparr>msgid := Some ''cat''\<rparr>" spec_shared ?o]
    by (simp add: cat_entry_def empty_entry_def comment_lines_def msgctxt_lines_def a f)
qed

section \<open>\<open>compile\<close>: collecting the entries\<close>

lemma ctx_entries_iff:
  "e \<in> set (ctx_entries ctxt ctx) \<longleftrightarrow>
     (\<exists>mid. (mid, Obj e) \<in> set ctx \<and> (ctxt \<noteq> [] \<or> mid \<noteq> []))"
proof (induction ctx)
  case Nil
  then show ?case by simp
next
  case (Cons kv ctx)
  obtain k v where kv: "kv = (k, v)" by (cases kv)
  show ?case
    using Cons.IH kv by (cases v) auto
qed

lemma normal_entries_iff:
  "e \<in> set (normal_entries tr) \<longleftrightarrow>
     (\<exists>ctxt ctx mid. (ctxt, Obj ctx) \<in> set tr \<and> (mid, Obj e) \<in> set ctx
        \<and> (ctxt \<noteq> [] \<or> mid \<noteq> []))"
proof (induction tr)
  case Nil
  then show ?case by simp
next
  case (Cons kv tr)
  obtain k v where kv: "kv = (k, v)" by (cases kv)
  show ?case
  proof (cases v)
    case (Obj ctx)
    with Cons.IH kv show ?thesis
      by (simp add: ctx_entries_iff) blast
  next
    case Null
    with Cons.IH kv show ?thesis by simp
  next
    case (Prim p)
    with Cons.IH kv show ?thesis by simp
  qed
qed

lemma collect_entries_pairs:
  assumes "\<forall>(k, v)\<in>set kvs. map_of ctx k = Some v"
    and "entries_ok ctxt kvs"
  shows "collect_entries ctx ctxt (map fst kvs) = map Obj (ctx_entries ctxt kvs)"
  using assms
proof (induction kvs)
  case Nil
  then show ?case by simp
next
  case (Cons kv kvs)
  obtain k v where kv: "kv = (k, v)" by (cases kv)
  from Cons.prems kv have m: "map_of ctx k = Some v" by simp
  from Cons.prems have "entries_ok ctxt kvs" by (simp add: entries_ok_def)
  with Cons have ih: "collect_entries ctx ctxt (map fst kvs) = map Obj (ctx_entries ctxt kvs)"
    by simp
  from Cons.prems(2) kv have ok: "v = Null \<longrightarrow> ctxt = [] \<and> k = []"
    by (cases v) (simp_all add: entries_ok_def)
  show ?case
    using m ih ok kv by (cases v) auto
qed

lemma map_of_distinct:
  "distinct (map fst kvs) \<Longrightarrow> \<forall>(k, v)\<in>set kvs. map_of kvs k = Some v"
  by auto

lemma collect_entries_all:
  assumes "distinct (keys ctx)" and "entries_ok ctxt ctx"
  shows "collect_entries ctx ctxt (keys ctx) = map Obj (ctx_entries ctxt ctx)"
  using assms collect_entries_pairs [of ctx ctx ctxt] map_of_distinct [of ctx]
  by (simp add: keys_def)

lemma collect_contexts_pairs:
  assumes "\<forall>(k, v)\<in>set kvs. map_of tr k = Some v"
    and "list_all (\<lambda>(ctxt, v). case v of Obj ctx \<Rightarrow> distinct (keys ctx) | _ \<Rightarrow> True) kvs"
    and "no_null kvs"
  shows "collect_contexts tr (map fst kvs) = Inr (map Obj (normal_entries kvs))"
  using assms
proof (induction kvs)
  case Nil
  then show ?case by simp
next
  case (Cons kv kvs)
  obtain k v where kv: "kv = (k, v)" by (cases kv)
  from Cons.prems kv have m: "map_of tr k = Some v" by simp
  from Cons.prems have "no_null kvs" by (simp add: no_null_def)
  with Cons have ih: "collect_contexts tr (map fst kvs) = Inr (map Obj (normal_entries kvs))"
    by simp
  show ?case
  proof (cases v)
    case (Obj ctx)
    with Cons.prems kv have "distinct (keys ctx)" and "entries_ok k ctx"
      by (simp_all add: no_null_def)
    then have "collect_entries ctx k (keys ctx) = map Obj (ctx_entries k ctx)"
      by (rule collect_entries_all)
    with m ih kv Obj show ?thesis by simp
  next
    case Null
    with Cons.prems(3) kv show ?thesis by (simp add: no_null_def)
  next
    case (Prim p)
    with m ih kv show ?thesis by simp
  qed
qed

lemma collect_contexts_all:
  assumes "unique_keys tr" and "no_null tr"
  shows "collect_contexts tr (keys tr) = Inr (map Obj (normal_entries tr))"
  using assms collect_contexts_pairs [of tr tr] map_of_distinct [of tr]
  by (simp add: keys_def unique_keys_def)

lemma mapM_drawBlock:
  "mapM (\<lambda>r. drawBlock sh opts r None) (map Obj es) = Inr (map (entry_block sh opts) es)"
  by (induction es) (simp_all add: drawBlock_Obj)

lemma headerBlock_cases:
  "headerBlock tr = Obj (header_entry tr) \<or>
   (header_entry tr = empty_entry \<and> (\<exists>p. headerBlock tr = Prim p \<and> p \<noteq> PUndefined))"
proof (cases "map_of tr []")
  case None
  then show ?thesis by (simp add: headerBlock_def header_entry_def)
next
  case (Some v)
  show ?thesis
  proof (cases v)
    case (Obj ctx)
    show ?thesis
    proof (cases "map_of ctx []")
      case None
      with Some Obj show ?thesis by (simp add: headerBlock_def header_entry_def)
    next
      case (Some w)
      with \<open>map_of tr [] = Some v\<close> Obj show ?thesis
        by (cases w) (auto simp: headerBlock_def header_entry_def)
    qed
  qed (use Some in \<open>simp_all add: headerBlock_def header_entry_def\<close>)
qed

lemma drawBlock_header:
  "drawBlock sh opts (headerBlock tr) (Some (empty_entry\<lparr>msgstr := Some (Str h)\<rparr>))
     = Inr (entry_block sh opts
         (if h \<noteq> [] then (header_entry tr)\<lparr>msgstr := Some (Str h)\<rparr> else header_entry tr))"
  using headerBlock_cases [of tr]
  by (auto simp: drawBlock_def entry_block_def or_prop_def empty_entry_def)

lemma compile_text:
  assumes "translations' (c_table c) = Some tr" and "unique_keys tr" and "no_null tr"
    and "sort_response (c_options c) (map Obj (normal_entries tr)) = Inr (map Obj es)"
  shows "compile sh c = Inr (to_buffer c (join [LF, LF]
           (header_block sh c tr # map (entry_block sh (c_options c)) es)))"
  using assms
  by (simp add: compile_def collect_contexts_all mapM_drawBlock drawBlock_header header_block_def
      to_buffer_def Let_def)


section \<open>\<open>compile\<close>: sorting\<close>


lemma set_ins [simp]: "set (ins g x ys) = insert x (set ys)"
  by (induction ys) auto

lemma mset_ins [simp]: "mset (ins g x ys) = add_mset x (mset ys)"
  by (induction ys) simp_all

lemma set_isort [simp]: "set (isort g xs) = set xs"
  by (induction xs) simp_all

lemma mset_isort [simp]: "mset (isort g xs) = mset xs"
  by (induction xs) simp_all







lemma compare_Obj: "compare (Obj a) (Obj b) = Inr (cmp_msgid a b)"
  by (simp add: compare_def cmp_msgid_def)


lemma insert_by_mset:
  "insert_by cmp x ys = Inr zs \<Longrightarrow> mset zs = add_mset x (mset ys)"
proof (induction ys arbitrary: zs)
  case Nil
  then show ?case by auto
next
  case (Cons y ys)
  from Cons.prems obtain r where r: "cmp x y = Inr r"
    and rest: "(if r \<le> 0 then Inr (x # y # ys)
                else bind (insert_by cmp x ys) (\<lambda>zs. Inr (y # zs))) = Inr zs"
    by (auto simp: bind_eq_Inr)
  show ?case
  proof (cases "r \<le> 0")
    case True
    with rest show ?thesis by auto
  next
    case False
    with rest obtain ws where "insert_by cmp x ys = Inr ws" and "zs = y # ws"
      by (auto simp: bind_eq_Inr)
    with Cons.IH [of ws] show ?thesis by simp
  qed
qed

lemma js_sort_mset: "js_sort cmp xs = Inr ys \<Longrightarrow> mset ys = mset xs"
proof (induction xs arbitrary: ys)
  case Nil
  then show ?case by auto
next
  case (Cons x xs)
  from Cons.prems obtain ws where "js_sort cmp xs = Inr ws" and "insert_by cmp x ws = Inr ys"
    by (auto simp: bind_eq_Inr)
  with Cons.IH [of ws] insert_by_mset [of cmp x ws ys] show ?case by simp
qed

lemma sort_response_mset: "sort_response opts xs = Inr ys \<Longrightarrow> mset ys = mset xs"
proof (cases "is_false (sort opts)")
  case True
  assume "sort_response opts xs = Inr ys"
  with True show ?thesis by (simp add: sort_response_def)
next
  case False
  assume a: "sort_response opts xs = Inr ys"
  with False have "(\<exists>f. js_sort f xs = Inr ys)"
    by (auto simp: sort_response_def split: option.splits sortopt.splits)
  then show ?thesis by (auto dest: js_sort_mset)
qed

lemma mset_map_Obj:
  assumes "mset ys = mset (map Obj xs)"
  shows "\<exists>es. ys = map Obj es \<and> mset es = mset xs"
proof -
  define un where "un = (\<lambda>y. case y of Obj (e::'a) \<Rightarrow> e | _ \<Rightarrow> undefined)"
  have u: "un (Obj e) = e" for e
    by (simp add: un_def)
  have "set ys = set (map Obj xs)"
    using assms by (rule mset_eq_setD)
  then have "\<forall>y\<in>set ys. Obj (un y) = y"
    by (auto simp: u)
  then have ys: "map Obj (map un ys) = ys"
    by (simp add: map_idI)
  have "mset (map un ys) = image_mset un (mset ys)"
    by simp
  also have "\<dots> = image_mset un (mset (map Obj xs))"
    by (simp only: assms)
  also have "\<dots> = mset xs"
    by (simp add: u multiset.map_comp comp_def)
  finally have "mset (map un ys) = mset xs" .
  with ys show ?thesis
    by (intro exI [of _ "map un ys"]) simp
qed





lemma example_ok:
  "unique_keys example_translations" "no_null example_translations"
  "normal_entries example_translations = [pear, apple, fig]"
  by (simp_all add: example_translations_def unique_keys_def no_null_def entries_ok_def keys_def)

lemma example_tr: "translations' (c_table (example_compiler s)) = Some example_translations"
  by (simp add: example_compiler_def)


lemma cmp_examples:
  "cmp_msgid pear apple = 1" "cmp_msgid apple pear = - 1" "cmp_msgid pear fig = 1"
  "cmp_msgid fig pear = - 1" "cmp_msgid apple fig = - 1" "cmp_msgid fig apple = 1"
  "cmp_msgid pear pear = 0" "cmp_msgid apple apple = 0" "cmp_msgid fig fig = 0"
  by (simp_all add: cmp_msgid_def pear_def apple_def fig_def)


text \<open>
  C5. The output of \<open>compile\<close>, for a table whose objects have no key twice and hold no
  \<^verbatim>\<open>null\<close>, and a sort that does not throw: the header block comes first, then one block
  for every normal entry and for nothing else (the entries in the arrangement the sort
  left them in, a permutation of the normal entries), and the blocks are joined by two
  newlines, which is one blank line between consecutive blocks. The pair of the empty
  context and the empty \<open>msgid\<close> is not among the normal entries.
\<close>

theorem compile_header_then_entries:
  assumes "translations' (c_table c) = Some tr" and "unique_keys tr" and "no_null tr"
    and "sort_response (c_options c) (map Obj (normal_entries tr)) = Inr srt"
  shows "(\<exists>es. srt = map Obj es \<and> mset es = mset (normal_entries tr)
           \<and> compile sh c = Inr (to_buffer c (join [LF, LF]
                (header_block sh c tr # map (entry_block sh (c_options c)) es))))
         \<and> (\<forall>e. e \<in> set (normal_entries tr) \<longleftrightarrow>
               (\<exists>ctxt ctx mid. (ctxt, Obj ctx) \<in> set tr \<and> (mid, Obj e) \<in> set ctx
                  \<and> (ctxt \<noteq> [] \<or> mid \<noteq> [])))"
proof
  from assms(4) have "mset srt = mset (map Obj (normal_entries tr))"
    by (rule sort_response_mset)
  then obtain es where es: "srt = map Obj es" "mset es = mset (normal_entries tr)"
    using mset_map_Obj by blast
  with assms(4) have "sort_response (c_options c) (map Obj (normal_entries tr)) = Inr (map Obj es)"
    by simp
  then have "compile sh c = Inr (to_buffer c (join [LF, LF]
            (header_block sh c tr # map (entry_block sh (c_options c)) es)))"
    by (rule compile_text [OF assms(1-3)])
  with es show "\<exists>es. srt = map Obj es \<and> mset es = mset (normal_entries tr)
           \<and> compile sh c = Inr (to_buffer c (join [LF, LF]
                (header_block sh c tr # map (entry_block sh (c_options c)) es)))"
    by blast
next
  show "\<forall>e. e \<in> set (normal_entries tr) \<longleftrightarrow>
               (\<exists>ctxt ctx mid. (ctxt, Obj ctx) \<in> set tr \<and> (mid, Obj e) \<in> set ctx
                  \<and> (ctxt \<noteq> [] \<or> mid \<noteq> []))"
    by (simp add: normal_entries_iff)
qed

theorem compile_header_then_entries_witness:
  "unique_keys example_translations \<and> no_null example_translations
   \<and> sort_response (c_options (example_compiler (SortBool True)))
        (map Obj (normal_entries example_translations)) = Inr (map Obj [apple, fig, pear])
   \<and> (\<exists>es. map Obj [apple, fig, pear] = map Obj es
          \<and> mset es = mset (normal_entries example_translations)
          \<and> compile spec_shared (example_compiler (SortBool True))
              = Inr (to_buffer (example_compiler (SortBool True)) (join [LF, LF]
                  (header_block spec_shared (example_compiler (SortBool True)) example_translations
                   # map (entry_block spec_shared (c_options (example_compiler (SortBool True))))
                       es))))"
proof -
  have s: "sort_response (c_options (example_compiler (SortBool True)))
        (map Obj (normal_entries example_translations)) = Inr (map Obj [apple, fig, pear])"
    by (simp add: example_ok(3) sort_response_def example_compiler_def compare_Obj cmp_examples)
  from compile_header_then_entries [OF example_tr example_ok(1) example_ok(2) s, of spec_shared]
  have "\<exists>es. map Obj [apple, fig, pear] = map Obj es
          \<and> mset es = mset (normal_entries example_translations)
          \<and> compile spec_shared (example_compiler (SortBool True))
              = Inr (to_buffer (example_compiler (SortBool True)) (join [LF, LF]
                  (header_block spec_shared (example_compiler (SortBool True)) example_translations
                   # map (entry_block spec_shared (c_options (example_compiler (SortBool True))))
                       es)))"
    by (rule conjunct1)
  with s example_ok show ?thesis
    by blast
qed

section \<open>The constructor and \<open>_handleCharset\<close>\<close>

lemma handleCharset_result:
  assumes "headers (c_table c) = Some hs"
  shows "\<exists>cs ct. cs \<noteq> [] \<and>
     handleCharset sh c = Inr (c\<lparr>c_table := (c_table c)\<lparr>charset := Some cs,
          headers := Some (set_prop hs ''content-type'' ct)\<rparr>, c_charset := Some cs\<rparr>)"
proof -
  define parts where "parts = split_on (CHR '';'')
                 (if truthy_str (map_of hs ''content-type'')
                  then or_empty (map_of hs ''content-type'') else ''text/plain'')"
  define r where "r = map_params sh (formatCharset sh (charset (c_table c))) (tl parts)"
  define cset where "cset = (if \<not> truthy_str (snd r)
             then Some (if truthy_str (charset (c_table c))
                        then or_empty (charset (c_table c)) else ''utf-8'')
             else snd r)"
  define params where "params = (if \<not> truthy_str (snd r)
                         then fst r @ [''charset='' @ to_string cset] else fst r)"
  have h: "handleCharset sh c = Inr (c\<lparr>c_table := (c_table c)\<lparr>charset := cset,
          headers := Some (set_prop hs ''content-type'' (hd parts @ ''; '' @ join ''; '' params))\<rparr>,
          c_charset := cset\<rparr>)"
    using assms by (simp add: handleCharset_def Let_def parts_def r_def cset_def params_def)
  have "truthy_str cset"
    unfolding cset_def by (cases "charset (c_table c)") auto
  then obtain cs where cs: "cset = Some cs" "cs \<noteq> []"
    by (cases cset) auto
  show ?thesis
    unfolding h cs(1) using cs(2) by blast
qed

lemma Compiler_result:
  "\<exists>cs ct. cs \<noteq> [] \<and>
     Compiler sh tbl opts =
       Inr \<lparr>c_table = \<lparr>charset = Some cs,
                       headers = Some (set_prop (headers_of tbl) ''content-type'' ct),
                       translations' = Some (translations_of tbl)\<rparr>,
            c_options = options_of opts, c_charset = Some cs\<rparr>"
proof -
  let ?t0 = "case tbl of None \<Rightarrow> \<lparr>charset = None, headers = None, translations' = None\<rparr>
             | Some t \<Rightarrow> t"
  let ?o0 = "case opts of None \<Rightarrow> \<lparr>foldLength = None, sort = None\<rparr> | Some o' \<Rightarrow> o'"
  let ?o1 = "if foldLength ?o0 = None then ?o0\<lparr>foldLength := Some 76\<rparr> else ?o0"
  let ?o2 = "case sort ?o1 of None \<Rightarrow> ?o1\<lparr>sort := Some (SortBool False)\<rparr> | Some _ \<Rightarrow> ?o1"
  let ?c = "\<lparr>c_table = ?t0\<lparr>headers := Some (headers_of tbl),
                           translations' := Some (translations_of tbl)\<rparr>,
             c_options = ?o2, c_charset = None\<rparr>"
  have C: "Compiler sh tbl opts = handleCharset sh ?c"
    by (simp add: Compiler_def Let_def headers_of_def translations_of_def split: option.splits)
  have o: "?o2 = options_of opts"
    by (cases opts) (auto simp: options_of_def split: option.splits)
  have "headers (c_table ?c) = Some (headers_of tbl)"
    by simp
  from handleCharset_result [OF this, of sh]
  obtain cs ct where "cs \<noteq> []" and
    "handleCharset sh ?c = Inr (?c\<lparr>c_table := (c_table ?c)\<lparr>charset := Some cs,
          headers := Some (set_prop (headers_of tbl) ''content-type'' ct)\<rparr>, c_charset := Some cs\<rparr>)"
    by blast
  then show ?thesis
    unfolding C o by (intro exI [of _ cs] exI [of _ ct]) simp
qed

lemma map_of_set_prop:
  "map_of (set_prop hs k v) k' = (if k' = k then Some v else map_of hs k')"
  by (induction hs) auto

lemma fc_utf8: "spec_formatCharset (Some ''utf-8'') = Some ''utf-8''"
  by code_simp

lemma fc_None: "spec_formatCharset None = None"
  by (simp add: spec_formatCharset_def)

lemma compilePO_bare:
  "compilePO spec_shared (Some bare_table) (Some bare_options)
     = Inr (BufferFrom header_only_utf8,
            \<lparr>charset = Some ''utf-8'',
             headers = Some [(''content-type'', ''text/plain; charset=utf-8'')],
             translations' = Some []\<rparr>,
            \<lparr>foldLength = Some 76, sort = Some (SortBool False)\<rparr>)"
  by (simp add: compilePO_def Compiler_def handleCharset_def compile_def bare_table_def
      bare_options_def header_only_utf8_def header_no_charset_def spec_shared_def fc_utf8 fc_None
      spec_generateHeader_def Let_def keys_def sort_response_def headerBlock_def drawBlock_def
      or_prop_def empty_entry_def block_lines_def addPOString_def escape_Cons escape_char_def
      fold_fits)

text \<open>
  C3, as the claim states it, fails: the compiler works on the caller's own objects. For
  the table \<open>{headers: {}, translations: {}}\<close> and the options \<open>{}\<close> the call returns the
  buffer and leaves \<open>charset: 'utf-8'\<close> and a \<open>content-type\<close> header in the table, and
  \<open>foldLength: 76\<close> and \<open>sort: false\<close> in the options.
\<close>

theorem compilePO_mutates_table_and_options:
  "compilePO spec_shared (Some bare_table) (Some bare_options)
     = Inr (BufferFrom header_only_utf8,
            \<lparr>charset = Some ''utf-8'',
             headers = Some [(''content-type'', ''text/plain; charset=utf-8'')],
             translations' = Some []\<rparr>,
            \<lparr>foldLength = Some 76, sort = Some (SortBool False)\<rparr>)
   \<and> \<lparr>charset = Some ''utf-8'',
       headers = Some [(''content-type'', ''text/plain; charset=utf-8'')],
       translations' = Some []\<rparr> \<noteq> bare_table
   \<and> \<lparr>foldLength = Some 76, sort = Some (SortBool False)\<rparr> \<noteq> bare_options"
  by (simp add: compilePO_bare) (simp add: bare_table_def bare_options_def)

text \<open>
  C3, amended. The constructor never throws, and it writes to the table and to the
  options it is given, and to nothing else: \<open>charset\<close> becomes the resolved charset, which
  is not empty; \<open>headers\<close> becomes the headers given (\<open>{}\<close> when absent) with
  \<open>content-type\<close> assigned, every other header as it was; \<open>translations\<close> becomes the
  mapping given (\<open>{}\<close> when absent), unchanged; an absent \<open>foldLength\<close> becomes 76 and an
  absent \<open>sort\<close> becomes false. \<open>compile\<close> writes to neither, so this is what the two objects
  hold whenever \<open>compilePO\<close> returns a buffer.
\<close>

theorem compilePO_writes_back:
  "(\<exists>cs ct. cs \<noteq> [] \<and>
      Compiler sh tbl opts =
        Inr \<lparr>c_table = \<lparr>charset = Some cs,
                        headers = Some (set_prop (headers_of tbl) ''content-type'' ct),
                        translations' = Some (translations_of tbl)\<rparr>,
             c_options = options_of opts, c_charset = Some cs\<rparr>
      \<and> (\<forall>b t' o'. compilePO sh tbl opts = Inr (b, t', o') \<longrightarrow>
            t' = \<lparr>charset = Some cs,
                  headers = Some (set_prop (headers_of tbl) ''content-type'' ct),
                  translations' = Some (translations_of tbl)\<rparr>
            \<and> o' = options_of opts))
   \<and> (\<forall>hs k v. k \<noteq> ''content-type'' \<longrightarrow>
         map_of (set_prop hs ''content-type'' v) k = map_of hs k)"
proof
  from Compiler_result [of sh tbl opts] obtain cs ct where cs: "cs \<noteq> []" and
    C: "Compiler sh tbl opts =
        Inr \<lparr>c_table = \<lparr>charset = Some cs,
                        headers = Some (set_prop (headers_of tbl) ''content-type'' ct),
                        translations' = Some (translations_of tbl)\<rparr>,
             c_options = options_of opts, c_charset = Some cs\<rparr>"
    by blast
  have "\<forall>b t' o'. compilePO sh tbl opts = Inr (b, t', o') \<longrightarrow>
            t' = \<lparr>charset = Some cs,
                  headers = Some (set_prop (headers_of tbl) ''content-type'' ct),
                  translations' = Some (translations_of tbl)\<rparr>
            \<and> o' = options_of opts"
    by (auto simp: compilePO_def C bind_eq_Inr)
  with cs C show "\<exists>cs ct. cs \<noteq> [] \<and>
      Compiler sh tbl opts =
        Inr \<lparr>c_table = \<lparr>charset = Some cs,
                        headers = Some (set_prop (headers_of tbl) ''content-type'' ct),
                        translations' = Some (translations_of tbl)\<rparr>,
             c_options = options_of opts, c_charset = Some cs\<rparr>
      \<and> (\<forall>b t' o'. compilePO sh tbl opts = Inr (b, t', o') \<longrightarrow>
            t' = \<lparr>charset = Some cs,
                  headers = Some (set_prop (headers_of tbl) ''content-type'' ct),
                  translations' = Some (translations_of tbl)\<rparr>
            \<and> o' = options_of opts)"
    by blast
next
  show "\<forall>hs k v. k \<noteq> ''content-type'' \<longrightarrow>
         map_of (set_prop hs ''content-type'' v) k = map_of hs k"
    by (simp add: map_of_set_prop)
qed

theorem compilePO_writes_back_witness:
  "(\<exists>cs ct. cs \<noteq> [] \<and>
      compilePO spec_shared (Some bare_table) (Some bare_options)
        = Inr (BufferFrom header_only_utf8,
               \<lparr>charset = Some cs,
                headers = Some (set_prop (headers_of (Some bare_table)) ''content-type'' ct),
                translations' = Some (translations_of (Some bare_table))\<rparr>,
               options_of (Some bare_options)))
   \<and> map_of (set_prop [(''language'', ''de'')] ''content-type'' ''text/plain'') ''language''
       = Some ''de''"
proof (rule conjI)
  note th = compilePO_writes_back [of spec_shared "Some bare_table" "Some bare_options",
      THEN conjunct1]
  from th obtain cs where "\<exists>ct. cs \<noteq> [] \<and>
      Compiler spec_shared (Some bare_table) (Some bare_options) =
        Inr \<lparr>c_table = \<lparr>charset = Some cs,
                        headers = Some (set_prop (headers_of (Some bare_table)) ''content-type'' ct),
                        translations' = Some (translations_of (Some bare_table))\<rparr>,
             c_options = options_of (Some bare_options), c_charset = Some cs\<rparr>
      \<and> (\<forall>b t' o'. compilePO spec_shared (Some bare_table) (Some bare_options) = Inr (b, t', o') \<longrightarrow>
            t' = \<lparr>charset = Some cs,
                  headers = Some (set_prop (headers_of (Some bare_table)) ''content-type'' ct),
                  translations' = Some (translations_of (Some bare_table))\<rparr>
            \<and> o' = options_of (Some bare_options))" ..
  then obtain ct where a: "cs \<noteq> [] \<and>
      Compiler spec_shared (Some bare_table) (Some bare_options) =
        Inr \<lparr>c_table = \<lparr>charset = Some cs,
                        headers = Some (set_prop (headers_of (Some bare_table)) ''content-type'' ct),
                        translations' = Some (translations_of (Some bare_table))\<rparr>,
             c_options = options_of (Some bare_options), c_charset = Some cs\<rparr>
      \<and> (\<forall>b t' o'. compilePO spec_shared (Some bare_table) (Some bare_options) = Inr (b, t', o') \<longrightarrow>
            t' = \<lparr>charset = Some cs,
                  headers = Some (set_prop (headers_of (Some bare_table)) ''content-type'' ct),
                  translations' = Some (translations_of (Some bare_table))\<rparr>
            \<and> o' = options_of (Some bare_options))" ..
  from a have cs: "cs \<noteq> []"
    by (rule conjunct1)
  note e = a [THEN conjunct2, THEN conjunct2, rule_format, OF compilePO_bare]
  have "compilePO spec_shared (Some bare_table) (Some bare_options)
        = Inr (BufferFrom header_only_utf8,
               \<lparr>charset = Some cs,
                headers = Some (set_prop (headers_of (Some bare_table)) ''content-type'' ct),
                translations' = Some (translations_of (Some bare_table))\<rparr>,
               options_of (Some bare_options))"
    unfolding compilePO_bare
    using e by (simp only: prod.inject sum.inject)
  with cs have "cs \<noteq> [] \<and>
      compilePO spec_shared (Some bare_table) (Some bare_options)
        = Inr (BufferFrom header_only_utf8,
               \<lparr>charset = Some cs,
                headers = Some (set_prop (headers_of (Some bare_table)) ''content-type'' ct),
                translations' = Some (translations_of (Some bare_table))\<rparr>,
               options_of (Some bare_options))"
    by (rule conjI)
  then show "\<exists>cs ct. cs \<noteq> [] \<and>
      compilePO spec_shared (Some bare_table) (Some bare_options)
        = Inr (BufferFrom header_only_utf8,
               \<lparr>charset = Some cs,
                headers = Some (set_prop (headers_of (Some bare_table)) ''content-type'' ct),
                translations' = Some (translations_of (Some bare_table))\<rparr>,
               options_of (Some bare_options))"
    by (intro exI)
next
  have "''language'' \<noteq> ''content-type''"
    by simp
  with compilePO_writes_back [of spec_shared None None, THEN conjunct2, rule_format,
      of "''language''" "[(''language'', ''de'')]" "''text/plain''"]
  show "map_of (set_prop [(''language'', ''de'')] ''content-type'' ''text/plain'') ''language''
       = Some ''de''"
    by simp
qed

text \<open>
  C1. The table \<open>{charset: 'utf-8', headers: {'content-type': 'text/plain'}}\<close>: the
  table's charset wins, but it is not injected into the header. \<open>_handleCharset\<close> writes
  \<open>charset=\<close> only over a \<open>charset\<close> parameter that is already there, or when no charset
  was found at all; here the header is left as \<open>text/plain; \<close> with no \<open>charset=\<close> in it.
\<close>

theorem handleCharset_charset_not_injected:
  "Compiler spec_shared
     (Some \<lparr>charset = Some ''utf-8'', headers = Some [(''content-type'', ''text/plain'')],
            translations' = None\<rparr>) None
   = Inr \<lparr>c_table = \<lparr>charset = Some ''utf-8'',
                      headers = Some [(''content-type'', ''text/plain; '')],
                      translations' = Some []\<rparr>,
           c_options = \<lparr>foldLength = Some 76, sort = Some (SortBool False)\<rparr>,
           c_charset = Some ''utf-8''\<rparr>"
  by (simp add: compilePO_def Compiler_def handleCharset_def compile_def bare_table_def
      bare_options_def header_only_utf8_def header_no_charset_def spec_shared_def fc_utf8 fc_None
      spec_generateHeader_def Let_def keys_def sort_response_def headerBlock_def drawBlock_def
      or_prop_def empty_entry_def block_lines_def addPOString_def escape_Cons escape_char_def
      fold_fits)

text \<open>
  C2. The table \<open>{charset: 'utf-8'}\<close>, with no headers: the resolved charset is \<open>utf-8\<close>,
  and the header block of the output is \<open>msgid ""\<close>, \<open>msgstr "content-type: text/plain; "\<close>:
  the emitted \<open>content-type\<close> has no \<open>charset=\<close> parameter.
\<close>

theorem compilePO_content_type_without_charset:
  "compilePO spec_shared
     (Some \<lparr>charset = Some ''utf-8'', headers = None, translations' = None\<rparr>) None
   = Inr (BufferFrom header_no_charset,
          \<lparr>charset = Some ''utf-8'', headers = Some [(''content-type'', ''text/plain; '')],
           translations' = Some []\<rparr>,
          \<lparr>foldLength = Some 76, sort = Some (SortBool False)\<rparr>)"
  by (simp add: compilePO_def Compiler_def handleCharset_def compile_def bare_table_def
      bare_options_def header_only_utf8_def header_no_charset_def spec_shared_def fc_utf8 fc_None
      spec_generateHeader_def Let_def keys_def sort_response_def headerBlock_def drawBlock_def
      or_prop_def empty_entry_def block_lines_def addPOString_def escape_Cons escape_char_def
      fold_fits)

section \<open>The order of the entry blocks\<close>

lemma array_index_examples:
  "array_index ''0'' = Some 0" "array_index ''1'' = Some 1" "array_index ''10'' = Some 10"
  "array_index ''4294967294'' = Some 4294967294" "array_index ''4294967295'' = None"
  "array_index ''01'' = None" "array_index ''1a'' = None" "array_index ''b'' = None"
  "array_index [] = None"
  by (simp_all add: array_index_def digits_def)










section \<open>\<^verbatim>\<open>null\<close> in the translations\<close>

lemma compilePO_null_entry:
  "compilePO sh
     (Some \<lparr>charset = None, headers = None,
            translations' = Some [([], Obj [(''hello'', Null)])]\<rparr>) None = Inl TypeError"
proof -
  let ?t = "\<lparr>charset = None, headers = None,
             translations' = Some [([], Obj [(''hello'', Null :: entry jsval)])]\<rparr>"
  from Compiler_result obtain cs ct where
    "Compiler sh (Some ?t) None =
       Inr \<lparr>c_table = \<lparr>charset = Some cs,
                       headers = Some (set_prop (headers_of (Some ?t)) ''content-type'' ct),
                       translations' = Some (translations_of (Some ?t))\<rparr>,
            c_options = options_of None, c_charset = Some cs\<rparr>"
    by blast
  then show ?thesis
    by (simp add: compilePO_def compile_def translations_of_def options_of_def keys_def
        sort_response_def drawBlock_def or_prop_def empty_entry_def)
qed

lemma compilePO_null_context:
  "compilePO sh
     (Some \<lparr>charset = None, headers = None, translations' = Some [(''menu'', Null)]\<rparr>) None
   = Inl TypeError"
proof -
  let ?t = "\<lparr>charset = None, headers = None,
             translations' = Some [(''menu'', Null :: js_context jsval)]\<rparr>"
  from Compiler_result obtain cs ct where
    "Compiler sh (Some ?t) None =
       Inr \<lparr>c_table = \<lparr>charset = Some cs,
                       headers = Some (set_prop (headers_of (Some ?t)) ''content-type'' ct),
                       translations' = Some (translations_of (Some ?t))\<rparr>,
            c_options = options_of None, c_charset = Some cs\<rparr>"
    by blast
  then show ?thesis
    by (simp add: compilePO_def compile_def translations_of_def keys_def)
qed

text \<open>
  C9. An entry that is \<^verbatim>\<open>null\<close>, as in \<open>{translations: {'': {hello: null}}}\<close>, is not
  skipped: \<^verbatim>\<open>typeof null\<close> is \<^verbatim>\<open>'object'\<close>, the value is pushed and \<open>_drawBlock\<close> throws
  a \<^verbatim>\<open>TypeError\<close> on reading \<open>block.comments\<close>. A context that is \<^verbatim>\<open>null\<close>, as in
  \<open>{translations: {menu: null}}\<close>, passes the same test and \<^verbatim>\<open>Object.keys(null)\<close> throws.
  Both hold whatever the functions of \<open>./shared\<close> do.
\<close>

theorem compilePO_throws_on_null:
  "compilePO sh
     (Some \<lparr>charset = None, headers = None,
            translations' = Some [([], Obj [(''hello'', Null)])]\<rparr>) None = Inl TypeError
   \<and> compilePO sh
       (Some \<lparr>charset = None, headers = None, translations' = Some [(''menu'', Null)]\<rparr>) None
     = Inl TypeError"
  by (simp add: compilePO_null_entry compilePO_null_context)

end
